theory Spec2Isabelle
  imports Main
begin

section \<open>Values of a loaded checkpoint\<close>

text \<open>
  A tensor is represented by the attributes that \<^verbatim>\<open>analyze_checkpoints.py\<close> reads from
  it: \<^verbatim>\<open>list(tensor.shape)\<close>, \<^verbatim>\<open>str(tensor.dtype)\<close>, \<^verbatim>\<open>tensor.element_size()\<close> and
  \<^verbatim>\<open>str(tensor.device)\<close>. The element count \<^verbatim>\<open>tensor.numel()\<close> is the product of the
  dimension sizes (1 for a tensor of no dimensions).
\<close>

record tensor =
  tensor_shape :: "nat list"
  tensor_dtype :: string
  tensor_element_size :: nat
  tensor_device :: string

definition numel :: "tensor \<Rightarrow> nat" where
  "numel t = prod_list (tensor_shape t)"

text \<open>
  Any other object is represented by what the script observes of it:
  \<^verbatim>\<open>type(value).__name__\<close>, \<^verbatim>\<open>sys.getsizeof(value)\<close>, \<^verbatim>\<open>str(value)\<close> and
  \<^verbatim>\<open>callable(value)\<close>. One \<^typ>\<open>char\<close> stands for one character of a Python string.
\<close>

record object =
  type_name :: string
  getsizeof :: nat
  str_of :: string
  callable :: bool

text \<open>
  A value is a dictionary (its items in iteration order, keys being strings), or a leaf:
  a tensor or some other object. The three kinds are disjoint, as
  \<^verbatim>\<open>isinstance(value, dict)\<close> and \<^verbatim>\<open>torch.is_tensor(value)\<close> are.
\<close>

datatype leaf = Tensor tensor | Other object

datatype pyval = Dict "(string \<times> pyval) list" | Leaf leaf

section \<open>Records produced by the script\<close>

text \<open>
  \<open>KeyError\<close> is raised by a subscript with a missing key; \<open>Raised\<close> stands for an
  exception, named by its type, that a builtin raises while it runs code of a value.
\<close>

datatype error = KeyError string | Raised string

text \<open>
  The dictionary returned by \<^verbatim>\<open>get_tensor_info\<close> has the keys \<^verbatim>\<open>shape\<close>, \<^verbatim>\<open>dtype\<close>,
  \<^verbatim>\<open>size_bytes\<close>, \<^verbatim>\<open>device\<close> for a tensor and \<^verbatim>\<open>type\<close>, \<^verbatim>\<open>size_bytes\<close> otherwise.
  Subscripting it with a key it does not have raises \<^verbatim>\<open>KeyError\<close>.
\<close>

datatype tensor_info =
    TensorInfo "nat list" string nat string
  | ObjectInfo string nat

fun get_tensor_info :: "leaf \<Rightarrow> tensor_info" where
  "get_tensor_info (Tensor t) =
     TensorInfo (tensor_shape t) (tensor_dtype t) (numel t * tensor_element_size t) (tensor_device t)"
| "get_tensor_info (Other v) = ObjectInfo (type_name v) (getsizeof v)"

fun info_shape :: "tensor_info \<Rightarrow> error + nat list" where
  "info_shape (TensorInfo sh dt sz dev) = Inr sh"
| "info_shape (ObjectInfo ty sz) = Inl (KeyError ''shape'')"

fun info_dtype :: "tensor_info \<Rightarrow> error + string" where
  "info_dtype (TensorInfo sh dt sz dev) = Inr dt"
| "info_dtype (ObjectInfo ty sz) = Inl (KeyError ''dtype'')"

fun info_size_bytes :: "tensor_info \<Rightarrow> error + nat" where
  "info_size_bytes (TensorInfo sh dt sz dev) = Inr sz"
| "info_size_bytes (ObjectInfo ty sz) = Inr sz"

fun info_device :: "tensor_info \<Rightarrow> error + string" where
  "info_device (TensorInfo sh dt sz dev) = Inr dev"
| "info_device (ObjectInfo ty sz) = Inl (KeyError ''device'')"

text \<open>
  A descriptor is the dictionary appended to \<^verbatim>\<open>results\<close>. The keys \<^verbatim>\<open>key\<close>, \<^verbatim>\<open>type\<close> and
  \<^verbatim>\<open>size_bytes\<close> are always present; \<^verbatim>\<open>shape\<close>, \<^verbatim>\<open>dtype\<close> and \<^verbatim>\<open>device\<close> only in the
  descriptor of a tensor, \<^verbatim>\<open>value_preview\<close> only in the descriptor of another object.
\<close>

record descriptor =
  key :: string
  type :: string
  size_bytes :: nat
  shape :: "nat list option"
  dtype :: "string option"
  device :: "string option"
  value_preview :: "string option"

section \<open>The traversal\<close>

text \<open>\<^verbatim>\<open>full_key = f"{prefix}.{key}" if prefix else key\<close>\<close>

definition full_key :: "string \<Rightarrow> string \<Rightarrow> string" where
  "full_key prefix k = (if prefix \<noteq> [] then prefix @ ''.'' @ k else k)"

text \<open>The descriptor of a tensor entry; its fields are evaluated in the order written.\<close>

definition tensor_descriptor :: "string \<Rightarrow> tensor_info \<Rightarrow> error + descriptor" where
  "tensor_descriptor fk tensor_info =
     (case info_shape tensor_info of Inl e \<Rightarrow> Inl e | Inr sh \<Rightarrow>
     (case info_dtype tensor_info of Inl e \<Rightarrow> Inl e | Inr dt \<Rightarrow>
     (case info_size_bytes tensor_info of Inl e \<Rightarrow> Inl e | Inr sz \<Rightarrow>
     (case info_device tensor_info of Inl e \<Rightarrow> Inl e | Inr dev \<Rightarrow>
        Inr \<lparr>key = fk, type = ''tensor'', size_bytes = sz, shape = Some sh,
             dtype = Some dt, device = Some dev, value_preview = None\<rparr>))))"

definition other_descriptor :: "string \<Rightarrow> object \<Rightarrow> descriptor" where
  "other_descriptor fk v =
     \<lparr>key = fk, type = type_name v, size_bytes = getsizeof v, shape = None,
      dtype = None, device = None,
      value_preview = Some (if \<not> callable v then take 100 (str_of v) else ''callable'')\<rparr>"

text \<open>
  \<^verbatim>\<open>analyze_nested_dict(data, prefix, max_depth, current_depth)\<close>. The loop over
  \<^verbatim>\<open>data.items()\<close> is \<open>analyze_items\<close>, which carries the list \<^verbatim>\<open>results\<close> built so far.
\<close>

fun analyze_nested_dict :: "pyval \<Rightarrow> string \<Rightarrow> int \<Rightarrow> int \<Rightarrow> error + descriptor list"
  and analyze_items ::
    "(string \<times> pyval) list \<Rightarrow> string \<Rightarrow> int \<Rightarrow> int \<Rightarrow> descriptor list \<Rightarrow> error + descriptor list"
where
  "analyze_nested_dict data prefix max_depth current_depth =
     (if current_depth > max_depth then Inr []
      else case data of
        Dict items \<Rightarrow> analyze_items items prefix max_depth current_depth []
      | Leaf l \<Rightarrow> Inr [])"
| "analyze_items [] prefix max_depth current_depth results = Inr results"
| "analyze_items ((k, v) # rest) prefix max_depth current_depth results =
     (case v of
        Dict sub \<Rightarrow>
          (case analyze_nested_dict v (full_key prefix k) max_depth (current_depth + 1) of
             Inl e \<Rightarrow> Inl e
           | Inr nested \<Rightarrow> analyze_items rest prefix max_depth current_depth (results @ nested))
      | Leaf (Tensor t) \<Rightarrow>
          (case tensor_descriptor (full_key prefix k) (get_tensor_info (Tensor t)) of
             Inl e \<Rightarrow> Inl e
           | Inr d \<Rightarrow> analyze_items rest prefix max_depth current_depth (results @ [d]))
      | Leaf (Other obj) \<Rightarrow>
          analyze_items rest prefix max_depth current_depth
            (results @ [other_descriptor (full_key prefix k) obj]))"

section \<open>The specification's view of the traversal\<close>

text \<open>
  The specification describes the result as one record per leaf value reachable within the
  depth bound, in depth-first order along each mapping's key order. The definitions of this
  section follow those words, not the code; the theorems below compare the two.

  \<open>leaf_paths\<close> lists every leaf of a mapping once, depth first and in key order, with the
  keys that lead to it from the root mapping.
\<close>

fun leaf_paths :: "(string \<times> pyval) list \<Rightarrow> (string list \<times> leaf) list" where
  "leaf_paths [] = []"
| "leaf_paths ((k, Dict sub) # rest) =
     map (\<lambda>p. (k # fst p, snd p)) (leaf_paths sub) @ leaf_paths rest"
| "leaf_paths ((k, Leaf l) # rest) = ([k], l) # leaf_paths rest"

text \<open>
  The nesting depth of a leaf is the depth of the mapping that holds it, the root mapping
  being at depth 0: a leaf reached through \<open>n\<close> keys is at depth \<open>n - 1\<close>. A leaf is within
  the bound when the mapping that holds it, met at \<open>current_depth\<close> plus that depth, is not
  deeper than \<open>max_depth\<close>.
\<close>

definition nesting_depth :: "string list \<times> leaf \<Rightarrow> int" where
  "nesting_depth p = int (length (fst p)) - 1"

definition within :: "int \<Rightarrow> int \<Rightarrow> string list \<times> leaf \<Rightarrow> bool" where
  "within max_depth current_depth p = (current_depth + nesting_depth p \<le> max_depth)"

definition reachable_leaves ::
  "(string \<times> pyval) list \<Rightarrow> int \<Rightarrow> int \<Rightarrow> (string list \<times> leaf) list" where
  "reachable_leaves items max_depth current_depth =
     filter (within max_depth current_depth) (leaf_paths items)"

text \<open>The dotted path: the keys joined to the prefix one after the other.\<close>

definition join_path :: "string \<Rightarrow> string list \<Rightarrow> string" where
  "join_path prefix ks = foldl full_key prefix ks"

text \<open>
  The number of dots in a path; a path of \<open>n\<close> dots has \<open>n + 1\<close> dotted segments.
\<close>

definition dots :: "string \<Rightarrow> nat" where
  "dots s = count_list s CHR ''.''"

text \<open>The descriptor that the specification gives a leaf, by its kind.\<close>

fun describe :: "string \<Rightarrow> leaf \<Rightarrow> descriptor" where
  "describe path (Tensor t) =
     \<lparr>key = path, type = ''tensor'', size_bytes = numel t * tensor_element_size t,
      shape = Some (tensor_shape t), dtype = Some (tensor_dtype t),
      device = Some (tensor_device t), value_preview = None\<rparr>"
| "describe path (Other v) =
     \<lparr>key = path, type = type_name v, size_bytes = getsizeof v, shape = None, dtype = None,
      device = None,
      value_preview = Some (if callable v then ''callable'' else take 100 (str_of v))\<rparr>"

definition expected ::
  "(string \<times> pyval) list \<Rightarrow> string \<Rightarrow> int \<Rightarrow> int \<Rightarrow> descriptor list" where
  "expected items prefix max_depth current_depth =
     map (\<lambda>p. describe (join_path prefix (fst p)) (snd p))
       (reachable_leaves items max_depth current_depth)"

text \<open>Every dictionary of the input has pairwise different keys, as a Python dictionary has.\<close>

fun keys_distinct :: "(string \<times> pyval) list \<Rightarrow> bool" where
  "keys_distinct [] = True"
| "keys_distinct ((k, Dict sub) # rest) =
     (k \<notin> fst ` set rest \<and> keys_distinct sub \<and> keys_distinct rest)"
| "keys_distinct ((k, Leaf l) # rest) = (k \<notin> fst ` set rest \<and> keys_distinct rest)"

text \<open>
  A position in a mapping is the list of the indices, in iteration order, of the entries
  that lead to it: \<open>[i]\<close> is entry \<open>i\<close> of the mapping itself, \<open>i # path\<close> is position
  \<open>path\<close> in the dictionary that entry \<open>i\<close> holds. A value at a position of \<open>n\<close> indices
  is at depth \<open>n\<close> below the mapping. \<open>subtree_at\<close> is the value at a position, when there
  is one, and \<open>remove_at\<close> is the mapping without the entry at that position.
\<close>

fun subtree_at :: "(string \<times> pyval) list \<Rightarrow> nat list \<Rightarrow> pyval option" where
  "subtree_at items [] = None"
| "subtree_at items [i] = (if i < length items then Some (snd (items ! i)) else None)"
| "subtree_at items (i # j # path) =
     (if i < length items then
        (case snd (items ! i) of Dict sub \<Rightarrow> subtree_at sub (j # path) | Leaf l \<Rightarrow> None)
      else None)"

fun remove_at :: "(string \<times> pyval) list \<Rightarrow> nat list \<Rightarrow> (string \<times> pyval) list" where
  "remove_at items [] = items"
| "remove_at items [i] = take i items @ drop (Suc i) items"
| "remove_at items (i # j # path) =
     (if i < length items then
        (case snd (items ! i) of
           Dict sub \<Rightarrow> items[i := (fst (items ! i), Dict (remove_at sub (j # path)))]
         | Leaf l \<Rightarrow> items)
      else items)"

section \<open>Example inputs\<close>

definition example_tensor :: tensor where
  "example_tensor =
     \<lparr>tensor_shape = [2, 2], tensor_dtype = ''torch.float32'', tensor_element_size = 4,
      tensor_device = ''cpu''\<rparr>"

definition example_int :: object where
  "example_int = \<lparr>type_name = ''int'', getsizeof = 28, str_of = ''5'', callable = False\<rparr>"

definition example_function :: object where
  "example_function =
     \<lparr>type_name = ''function'', getsizeof = 160, str_of = ''<function f at 0x7f00>'',
      callable = True\<rparr>"

definition example_text :: object where
  "example_text =
     \<lparr>type_name = ''str'', getsizeof = 199, str_of = replicate 150 CHR ''x'',
      callable = False\<rparr>"

text \<open>\<^verbatim>\<open>{"fn": f, "note": "xxx..."}\<close>, the string being 150 characters long.\<close>

definition example_others :: "(string \<times> pyval) list" where
  "example_others =
     [(''fn'', Leaf (Other example_function)), (''note'', Leaf (Other example_text))]"

text \<open>\<^verbatim>\<open>{"a": {"b": tensor}, "c": 5}\<close>\<close>

definition example_checkpoint :: "(string \<times> pyval) list" where
  "example_checkpoint =
     [(''a'', Dict [(''b'', Leaf (Tensor example_tensor))]), (''c'', Leaf (Other example_int))]"

text \<open>Five mappings nested below the root one, with a leaf in each mapping.\<close>

definition example_deep :: "(string \<times> pyval) list" where
  "example_deep =
     [(''x0'', Leaf (Other example_int)),
      (''l1'', Dict [(''x1'', Leaf (Other example_int)),
        (''l2'', Dict [(''x2'', Leaf (Tensor example_tensor)),
          (''l3'', Dict [(''x3'', Leaf (Other example_function)),
            (''l4'', Dict [(''x4'', Leaf (Other example_int)),
              (''l5'', Dict [(''x5'', Leaf (Tensor example_tensor))])])])])])]"

section \<open>The traversal on a store of list objects\<close>

text \<open>
  In Python a list is an object: \<^verbatim>\<open>results = []\<close> creates one, \<^verbatim>\<open>append\<close> and \<^verbatim>\<open>extend\<close>
  change it in place, and \<^verbatim>\<open>return results\<close> hands out a reference to it. This second model
  of \<^verbatim>\<open>analyze_nested_dict\<close> makes that explicit. A world holds the list objects created so
  far, a reference being an index into them, and the lines written to the standard output;
  the function has no statement that writes there. The argument \<^verbatim>\<open>data\<close> is only read
  (\<^verbatim>\<open>isinstance\<close>, \<^verbatim>\<open>items()\<close> and the queries on leaves), so it stays a value.
\<close>

record world =
  objects :: "descriptor list list"
  stdout :: "string list"

definition new_list :: "world \<Rightarrow> nat \<times> world" where
  "new_list w = (length (objects w), w\<lparr>objects := objects w @ [ [] ]\<rparr>)"

definition list_append :: "nat \<Rightarrow> descriptor \<Rightarrow> world \<Rightarrow> world" where
  "list_append r d w = w\<lparr>objects := (objects w)[r := objects w ! r @ [d]]\<rparr>"

definition list_extend :: "nat \<Rightarrow> nat \<Rightarrow> world \<Rightarrow> world" where
  "list_extend r other w = w\<lparr>objects := (objects w)[r := objects w ! r @ objects w ! other]\<rparr>"

fun analyze_nested_dict_heap ::
    "pyval \<Rightarrow> string \<Rightarrow> int \<Rightarrow> int \<Rightarrow> world \<Rightarrow> error + nat \<times> world"
  and analyze_items_heap ::
    "(string \<times> pyval) list \<Rightarrow> string \<Rightarrow> int \<Rightarrow> int \<Rightarrow> nat \<Rightarrow> world \<Rightarrow> error + world"
where
  "analyze_nested_dict_heap data prefix max_depth current_depth w =
     (case new_list w of (results, w1) \<Rightarrow>
        if current_depth > max_depth then Inr (results, w1)
        else
          (case data of
             Dict items \<Rightarrow>
               (case analyze_items_heap items prefix max_depth current_depth results w1 of
                  Inl e \<Rightarrow> Inl e
                | Inr w2 \<Rightarrow> Inr (results, w2))
           | Leaf l \<Rightarrow> Inr (results, w1)))"
| "analyze_items_heap [] prefix max_depth current_depth results w = Inr w"
| "analyze_items_heap ((k, v) # rest) prefix max_depth current_depth results w =
     (case v of
        Dict sub \<Rightarrow>
          (case analyze_nested_dict_heap v (full_key prefix k) max_depth (current_depth + 1) w of
             Inl e \<Rightarrow> Inl e
           | Inr (nested, w1) \<Rightarrow>
               analyze_items_heap rest prefix max_depth current_depth results
                 (list_extend results nested w1))
      | Leaf (Tensor t) \<Rightarrow>
          (case tensor_descriptor (full_key prefix k) (get_tensor_info (Tensor t)) of
             Inl e \<Rightarrow> Inl e
           | Inr d \<Rightarrow>
               analyze_items_heap rest prefix max_depth current_depth results
                 (list_append results d w))
      | Leaf (Other obj) \<Rightarrow>
          analyze_items_heap rest prefix max_depth current_depth results
            (list_append results (other_descriptor (full_key prefix k) obj) w))"

text \<open>A world in which two lists exist and a line has been printed before the call.\<close>

definition example_world :: world where
  "example_world =
     \<lparr>objects = [ [describe ''old'' (Other example_int)], []], stdout = [''Loading checkpoint...'']\<rparr>"

section \<open>The traversal when a query on a value raises\<close>















section \<open>The code computes what the specification describes\<close>

lemma leaf_paths_nonempty: "p \<in> set (leaf_paths items) \<Longrightarrow> fst p \<noteq> []"
  by (induction items arbitrary: p rule: leaf_paths.induct) auto

lemma nesting_depth_nonneg: "p \<in> set (leaf_paths items) \<Longrightarrow> 0 \<le> nesting_depth p"
proof -
  assume "p \<in> set (leaf_paths items)"
  then have "fst p \<noteq> []" by (rule leaf_paths_nonempty)
  then have "1 \<le> int (length (fst p))" by (cases "fst p") simp_all
  then show ?thesis unfolding nesting_depth_def by linarith
qed

lemma leaf_paths_append: "leaf_paths (xs @ ys) = leaf_paths xs @ leaf_paths ys"
  by (induction xs rule: leaf_paths.induct) simp_all

lemma tensor_descriptor_describe:
  "tensor_descriptor path (get_tensor_info (Tensor t)) = Inr (describe path (Tensor t))"
  by (simp add: tensor_descriptor_def)

lemma other_descriptor_describe: "other_descriptor path v = describe path (Other v)"
  by (simp add: other_descriptor_def)

lemma expected_Nil: "expected [] prefix d c = []"
  by (simp add: expected_def reachable_leaves_def)

lemma expected_Leaf:
  "c \<le> d \<Longrightarrow>
   expected ((k, Leaf l) # rest) prefix d c = describe (full_key prefix k) l # expected rest prefix d c"
  by (simp add: expected_def reachable_leaves_def within_def nesting_depth_def join_path_def)

lemma expected_Dict:
  "expected ((k, Dict sub) # rest) prefix d c =
     expected sub (full_key prefix k) d (c + 1) @ expected rest prefix d c"
  by (simp add: expected_def reachable_leaves_def within_def [abs_def] nesting_depth_def
      join_path_def filter_map comp_def add.assoc add.commute)

lemma reachable_leaves_over: "d < c \<Longrightarrow> reachable_leaves items d c = []"
proof -
  assume over: "d < c"
  have "\<not> within d c p" if "p \<in> set (leaf_paths items)" for p
    using nesting_depth_nonneg [OF that] over unfolding within_def by linarith
  then show ?thesis by (simp add: reachable_leaves_def filter_empty_conv)
qed

lemma expected_over: "d < c \<Longrightarrow> expected items prefix d c = []"
  by (simp add: expected_def reachable_leaves_over)

lemma analyze_items_expected:
  "c \<le> d \<Longrightarrow> analyze_items items prefix d c acc = Inr (acc @ expected items prefix d c)"
proof (induction items arbitrary: prefix c acc rule: leaf_paths.induct)
  case 1
  then show ?case by (simp add: expected_Nil)
next
  case (2 k sub rest)
  show ?case
  proof (cases "c + 1 \<le> d")
    case True
    then show ?thesis using 2 by (simp add: expected_Dict)
  next
    case False
    then have "d < c + 1" by simp
    then show ?thesis using 2 by (simp add: expected_Dict expected_over)
  qed
next
  case (3 k l rest)
  then show ?case
    by (cases l)
      (simp_all add: expected_Leaf tensor_descriptor_describe other_descriptor_describe
        del: get_tensor_info.simps describe.simps)
qed

lemma analyze_nested_dict_expected:
  "analyze_nested_dict (Dict items) prefix d c = Inr (expected items prefix d c)"
  by (cases "c \<le> d") (simp_all add: analyze_items_expected expected_over)

lemma analyze_items_append:
  "c \<le> d \<Longrightarrow>
   analyze_items (xs @ ys) prefix d c acc =
     Inr (acc @ expected xs prefix d c @ expected ys prefix d c)"
  by (simp add: analyze_items_expected expected_def reachable_leaves_def leaf_paths_append)

lemma leaf_paths_first_key:
  "p \<in> set (leaf_paths items) \<Longrightarrow> hd (fst p) \<in> fst ` set items"
  by (induction items arbitrary: p rule: leaf_paths.induct) force+

lemma leaf_paths_distinct: "keys_distinct items \<Longrightarrow> distinct (map fst (leaf_paths items))"
proof (induction items rule: leaf_paths.induct)
  case 1
  then show ?case by simp
next
  case (2 k sub rest)
  have inj: "inj_on (\<lambda>ks. k # ks) A" for A :: "string list set"
    by (simp add: inj_on_def)
  have sub: "distinct (map (\<lambda>p. k # fst p) (leaf_paths sub))"
    using 2 by (simp add: distinct_map inj_on_def flip: map_map)
  have "k # fst p \<noteq> fst q" if "p \<in> set (leaf_paths sub)" "q \<in> set (leaf_paths rest)" for p q
  proof
    assume eq: "k # fst p = fst q"
    have "hd (fst q) \<in> fst ` set rest" using that(2) by (rule leaf_paths_first_key)
    then show False using 2(3) eq [symmetric] by simp
  qed
  then show ?case using 2 sub by (auto simp: comp_def)
next
  case (3 k l rest)
  have "[k] \<noteq> fst q" if "q \<in> set (leaf_paths rest)" for q
  proof
    assume eq: "[k] = fst q"
    have "hd (fst q) \<in> fst ` set rest" using that by (rule leaf_paths_first_key)
    then show False using 3(2) eq [symmetric] by simp
  qed
  then show ?case using 3 by auto
qed

lemma dots_full_key: "dots k = 0 \<Longrightarrow> dots (full_key p k) \<le> dots p + 1"
  by (simp add: dots_def full_key_def)

lemma dots_join_path:
  "\<forall>k\<in>set ks. dots k = 0 \<Longrightarrow> dots (join_path p ks) \<le> dots p + length ks"
proof (induction ks arbitrary: p)
  case Nil
  then show ?case by (simp add: join_path_def)
next
  case (Cons k ks)
  have "dots (join_path (full_key p k) ks) \<le> dots (full_key p k) + length ks"
    using Cons by simp
  moreover have "dots k = 0" using Cons.prems by simp
  then have "dots (full_key p k) \<le> dots p + 1" by (rule dots_full_key)
  ultimately show ?case by (simp add: join_path_def)
qed

lemma dots_join_path_empty:
  "\<forall>k\<in>set ks. dots k = 0 \<Longrightarrow> ks \<noteq> [] \<Longrightarrow> dots (join_path [] ks) + 1 \<le> length ks"
proof (cases ks)
  case Nil
  assume "ks \<noteq> []"
  with Nil show ?thesis by simp
next
  case (Cons k ks')
  assume free: "\<forall>k\<in>set ks. dots k = 0"
  then have "dots (join_path k ks') \<le> dots k + length ks'"
    using Cons by (intro dots_join_path) simp
  moreover have "dots k = 0" using free Cons by simp
  moreover have "join_path [] ks = join_path k ks'"
    by (simp add: Cons join_path_def full_key_def)
  ultimately show ?thesis by (simp add: Cons)
qed

lemma dots_join_path_bound:
  "\<forall>k\<in>set ks. dots k = 0 \<Longrightarrow> ks \<noteq> [] \<Longrightarrow>
   dots (join_path prefix ks) + (if prefix = [] then 1 else 0) \<le> dots prefix + length ks"
  using dots_join_path [of ks prefix] dots_join_path_empty [of ks]
  by (auto simp: dots_def)

lemma expected_append:
  "expected (xs @ ys) prefix d c = expected xs prefix d c @ expected ys prefix d c"
  by (simp add: expected_def reachable_leaves_def leaf_paths_append)

lemma expected_entry:
  "expected (xs @ (k, Dict sub) # ys) prefix d c =
     expected xs prefix d c @ expected sub (full_key prefix k) d (c + 1) @ expected ys prefix d c"
  by (simp add: expected_append expected_Dict)

lemma expected_remove_at:
  "subtree_at items path = Some (Dict sub) \<Longrightarrow> d < c + int (length path) \<Longrightarrow>
   expected (remove_at items path) prefix d c = expected items prefix d c"
proof (induction items path arbitrary: prefix c rule: subtree_at.induct)
  case (1 items)
  then show ?case by simp
next
  case (2 items i)
  from "2.prems"(1) have i: "i < length items" and at: "snd (items ! i) = Dict sub"
    by (simp_all split: if_splits)
  have split: "items = take i items @ (fst (items ! i), Dict sub) # drop (Suc i) items"
    using id_take_nth_drop [OF i] at by (metis prod.collapse)
  have "expected sub (full_key prefix (fst (items ! i))) d (c + 1) = []"
    using "2.prems"(2) by (intro expected_over) simp
  then have "expected items prefix d c =
      expected (take i items) prefix d c @ expected (drop (Suc i) items) prefix d c"
    using expected_entry [of "take i items" "fst (items ! i)" sub "drop (Suc i) items" prefix d c]
      split by simp
  then show ?case by (simp add: expected_append)
next
  case (3 items i j path)
  from "3.prems"(1) have i: "i < length items"
    by (simp split: if_splits)
  from "3.prems"(1) i obtain inner where at: "snd (items ! i) = Dict inner"
    and below: "subtree_at inner (j # path) = Some (Dict sub)"
    by (cases "snd (items ! i)") simp_all
  let ?k = "fst (items ! i)"
  let ?inner' = "remove_at inner (j # path)"
  have deeper: "d < (c + 1) + int (length (j # path))"
    using "3.prems"(2) by simp
  have same: "expected ?inner' (full_key prefix ?k) d (c + 1) =
      expected inner (full_key prefix ?k) d (c + 1)"
    using "3.IH" [OF i at below deeper] .
  have split: "items = take i items @ (?k, Dict inner) # drop (Suc i) items"
    using id_take_nth_drop [OF i] at by (metis prod.collapse)
  have removed: "remove_at items (i # j # path) =
      take i items @ (?k, Dict ?inner') # drop (Suc i) items"
    using i at by (simp add: upd_conv_take_nth_drop)
  have "expected (remove_at items (i # j # path)) prefix d c =
      expected (take i items) prefix d c @ expected ?inner' (full_key prefix ?k) d (c + 1) @
        expected (drop (Suc i) items) prefix d c"
    unfolding removed by (rule expected_entry)
  also have "\<dots> = expected (take i items) prefix d c @
      expected inner (full_key prefix ?k) d (c + 1) @ expected (drop (Suc i) items) prefix d c"
    by (simp only: same)
  also have "\<dots> = expected (take i items @ (?k, Dict inner) # drop (Suc i) items) prefix d c"
    by (rule expected_entry [symmetric])
  also have "\<dots> = expected items prefix d c"
    using split by simp
  finally show ?case .
qed

section \<open>The store model against the functional one\<close>

lemma analyze_items_heap_run:
  "results < length (objects w) \<Longrightarrow>
   \<exists>w'. analyze_items_heap items prefix d c results w = Inr w' \<and>
     length (objects w) \<le> length (objects w') \<and>
     (\<forall>a<length (objects w). a \<noteq> results \<longrightarrow> objects w' ! a = objects w ! a) \<and>
     analyze_items items prefix d c (objects w ! results) = Inr (objects w' ! results) \<and>
     stdout w' = stdout w"
proof (induction items arbitrary: prefix c results w rule: leaf_paths.induct)
  case 1
  then show ?case by simp
next
  case (2 k sub rest)
  let ?fk = "full_key prefix k"
  let ?r = "length (objects w)"
  let ?w0 = "w\<lparr>objects := objects w @ [ [] ]\<rparr>"
  have nested: "\<exists>w1. analyze_nested_dict_heap (Dict sub) ?fk d (c + 1) w = Inr (?r, w1) \<and>
      length (objects w) < length (objects w1) \<and>
      (\<forall>a<length (objects w). objects w1 ! a = objects w ! a) \<and>
      analyze_nested_dict (Dict sub) ?fk d (c + 1) = Inr (objects w1 ! ?r) \<and>
      stdout w1 = stdout w"
  proof (cases "d < c + 1")
    case True
    then show ?thesis
      by (intro exI [of _ ?w0]) (simp add: new_list_def nth_append)
  next
    case False
    have "?r < length (objects ?w0)" by simp
    from "2.IH"(1) [OF this, of ?fk "c + 1"] obtain w1 where
      run: "analyze_items_heap sub ?fk d (c + 1) ?r ?w0 = Inr w1"
      and len: "length (objects ?w0) \<le> length (objects w1)"
      and frame: "\<forall>a<length (objects ?w0). a \<noteq> ?r \<longrightarrow> objects w1 ! a = objects ?w0 ! a"
      and pure: "analyze_items sub ?fk d (c + 1) (objects ?w0 ! ?r) = Inr (objects w1 ! ?r)"
      and out: "stdout w1 = stdout ?w0"
      by blast
    have "\<forall>a<length (objects w). objects w1 ! a = objects w ! a"
      using frame by (simp add: nth_append)
    moreover have "analyze_nested_dict (Dict sub) ?fk d (c + 1) = Inr (objects w1 ! ?r)"
      using pure False by simp
    ultimately show ?thesis
      using run len out False by (intro exI [of _ w1]) (simp add: new_list_def)
  qed
  then obtain w1 where
    run1: "analyze_nested_dict_heap (Dict sub) ?fk d (c + 1) w = Inr (?r, w1)"
    and len1: "length (objects w) < length (objects w1)"
    and frame1: "\<forall>a<length (objects w). objects w1 ! a = objects w ! a"
    and pure1: "analyze_nested_dict (Dict sub) ?fk d (c + 1) = Inr (objects w1 ! ?r)"
    and out1: "stdout w1 = stdout w"
    by blast
  let ?w2 = "list_extend results ?r w1"
  have res2: "results < length (objects ?w2)"
    using "2.prems" len1 by (simp add: list_extend_def)
  from "2.IH"(2) [OF res2, of prefix c] obtain w3 where
    run3: "analyze_items_heap rest prefix d c results ?w2 = Inr w3"
    and len3: "length (objects ?w2) \<le> length (objects w3)"
    and frame3: "\<forall>a<length (objects ?w2). a \<noteq> results \<longrightarrow> objects w3 ! a = objects ?w2 ! a"
    and pure3: "analyze_items rest prefix d c (objects ?w2 ! results) = Inr (objects w3 ! results)"
    and out3: "stdout w3 = stdout ?w2"
    by blast
  have at_results: "objects ?w2 ! results = objects w ! results @ objects w1 ! ?r"
    using "2.prems" len1 frame1 by (simp add: list_extend_def)
  have "analyze_items_heap ((k, Dict sub) # rest) prefix d c results w = Inr w3"
    using run1 run3 by (simp del: analyze_nested_dict_heap.simps)
  moreover have "length (objects w) \<le> length (objects w3)"
    using len1 len3 by (simp add: list_extend_def)
  moreover have "\<forall>a<length (objects w). a \<noteq> results \<longrightarrow> objects w3 ! a = objects w ! a"
    using frame1 frame3 len1 by (simp add: list_extend_def)
  moreover have "analyze_items ((k, Dict sub) # rest) prefix d c (objects w ! results) =
      Inr (objects w3 ! results)"
    using pure1 pure3 at_results by (simp del: analyze_nested_dict.simps)
  moreover have "stdout w3 = stdout w"
    using out1 out3 by (simp add: list_extend_def)
  ultimately show ?case by blast
next
  case (3 k l rest)
  obtain dsc where step_heap: "analyze_items_heap ((k, Leaf l) # rest) prefix d c results w =
      analyze_items_heap rest prefix d c results (list_append results dsc w)"
    and step_pure: "analyze_items ((k, Leaf l) # rest) prefix d c (objects w ! results) =
      analyze_items rest prefix d c (objects w ! results @ [dsc])"
  proof (cases l)
    case (Tensor t)
    show ?thesis
      by (rule that [of "describe (full_key prefix k) (Tensor t)"])
        (simp_all add: Tensor tensor_descriptor_describe
          del: get_tensor_info.simps describe.simps)
  next
    case (Other v)
    show ?thesis
      by (rule that [of "other_descriptor (full_key prefix k) v"]) (simp_all add: Other)
  qed
  let ?w1 = "list_append results dsc w"
  have res1: "results < length (objects ?w1)"
    using "3.prems" by (simp add: list_append_def)
  from "3.IH" [OF res1, of prefix c] obtain w2 where
    run2: "analyze_items_heap rest prefix d c results ?w1 = Inr w2"
    and len2: "length (objects ?w1) \<le> length (objects w2)"
    and frame2: "\<forall>a<length (objects ?w1). a \<noteq> results \<longrightarrow> objects w2 ! a = objects ?w1 ! a"
    and pure2: "analyze_items rest prefix d c (objects ?w1 ! results) = Inr (objects w2 ! results)"
    and out2: "stdout w2 = stdout ?w1"
    by blast
  have at_results: "objects ?w1 ! results = objects w ! results @ [dsc]"
    using "3.prems" by (simp add: list_append_def)
  have "analyze_items_heap ((k, Leaf l) # rest) prefix d c results w = Inr w2"
    using step_heap run2 by simp
  moreover have "length (objects w) \<le> length (objects w2)"
    using len2 by (simp add: list_append_def)
  moreover have "\<forall>a<length (objects w). a \<noteq> results \<longrightarrow> objects w2 ! a = objects w ! a"
    using frame2 by (simp add: list_append_def)
  moreover have "analyze_items ((k, Leaf l) # rest) prefix d c (objects w ! results) =
      Inr (objects w2 ! results)"
    using step_pure pure2 at_results by simp
  moreover have "stdout w2 = stdout w"
    using out2 by (simp add: list_append_def)
  ultimately show ?case by blast
qed

lemma analyze_nested_dict_heap_run:
  "\<exists>w'. analyze_nested_dict_heap data prefix d c w = Inr (length (objects w), w') \<and>
     length (objects w) < length (objects w') \<and>
     take (length (objects w)) (objects w') = objects w \<and>
     analyze_nested_dict data prefix d c = Inr (objects w' ! length (objects w)) \<and>
     stdout w' = stdout w"
proof -
  let ?r = "length (objects w)"
  let ?w0 = "w\<lparr>objects := objects w @ [ [] ]\<rparr>"
  have fresh: "analyze_nested_dict_heap data prefix d c w = Inr (?r, ?w0) \<and>
      analyze_nested_dict data prefix d c = Inr []"
    if "d < c \<or> (\<exists>l. data = Leaf l)"
    using that by (auto simp: new_list_def)
  show ?thesis
  proof (cases "d < c \<or> (\<exists>l. data = Leaf l)")
    case True
    from fresh [OF this] show ?thesis
      by (intro exI [of _ ?w0]) (simp add: nth_append)
  next
    case False
    then obtain xs where data: "data = Dict xs" and depth: "\<not> d < c"
      by (cases data) auto
    have "?r < length (objects ?w0)" by simp
    from analyze_items_heap_run [OF this, of xs prefix d c] obtain w1 where
      run: "analyze_items_heap xs prefix d c ?r ?w0 = Inr w1"
      and len: "length (objects ?w0) \<le> length (objects w1)"
      and frame: "\<forall>a<length (objects ?w0). a \<noteq> ?r \<longrightarrow> objects w1 ! a = objects ?w0 ! a"
      and pure: "analyze_items xs prefix d c (objects ?w0 ! ?r) = Inr (objects w1 ! ?r)"
      and out: "stdout w1 = stdout ?w0"
      by blast
    have "take ?r (objects w1) = objects w"
    proof (rule nth_equalityI)
      show "length (take ?r (objects w1)) = length (objects w)" using len by simp
    next
      fix a assume "a < length (take ?r (objects w1))"
      then have "a < ?r" by simp
      then show "take ?r (objects w1) ! a = objects w ! a"
        using frame by (simp add: nth_append)
    qed
    moreover have "analyze_nested_dict data prefix d c = Inr (objects w1 ! ?r)"
      using pure depth by (simp add: data)
    moreover have "analyze_nested_dict_heap data prefix d c w = Inr (?r, w1)"
      using run depth by (simp add: data new_list_def)
    ultimately show ?thesis using len out by (intro exI [of _ w1]) simp
  qed
qed

section \<open>The model with raising queries against the first one\<close>





section \<open>The claims\<close>

text \<open>
  C1. For every tensor leaf that the traversal meets, the byte size of its descriptor is
  exactly the element count of the tensor times the byte width of one element: the
  descriptor at the position of the \<open>i\<close>-th reachable leaf, when that leaf is a tensor
  \<open>t\<close>, has \<open>size_bytes = numel t * tensor_element_size t\<close>, and so has the record
  returned by \<open>get_tensor_info\<close>.
\<close>

theorem tensor_size_bytes_exact:
  assumes "analyze_nested_dict (Dict items) prefix max_depth current_depth = Inr ds"
    and "i < length (reachable_leaves items max_depth current_depth)"
    and "reachable_leaves items max_depth current_depth ! i = (ks, Tensor t)"
  shows "i < length ds \<and> key (ds ! i) = join_path prefix ks \<and> type (ds ! i) = ''tensor'' \<and>
    size_bytes (ds ! i) = numel t * tensor_element_size t \<and>
    info_size_bytes (get_tensor_info (Tensor t)) = Inr (numel t * tensor_element_size t)"
proof -
  have "ds = expected items prefix max_depth current_depth"
    using assms(1) by (simp only: analyze_nested_dict_expected sum.inject)
  then show ?thesis using assms(2,3) by (simp add: expected_def)
qed

theorem tensor_size_bytes_exact_witness:
  "reachable_leaves example_checkpoint 3 0 ! 0 = ([''a'', ''b''], Tensor example_tensor) \<and>
   (\<exists>ds. analyze_nested_dict (Dict example_checkpoint) '''' 3 0 = Inr ds \<and>
      key (ds ! 0) = ''a.b'' \<and> size_bytes (ds ! 0) = 16)"
proof -
  have run: "analyze_nested_dict (Dict example_checkpoint) '''' 3 0 =
      Inr (expected example_checkpoint '''' 3 0)"
    by (rule analyze_nested_dict_expected)
  have leaf: "reachable_leaves example_checkpoint 3 0 ! 0 = ([''a'', ''b''], Tensor example_tensor)"
    by (simp add: reachable_leaves_def within_def nesting_depth_def example_checkpoint_def)
  have len: "0 < length (reachable_leaves example_checkpoint 3 0)"
    by (simp add: reachable_leaves_def within_def nesting_depth_def example_checkpoint_def)
  show ?thesis
    using tensor_size_bytes_exact [OF run len leaf] run leaf
    by (simp add: join_path_def full_key_def numel_def example_tensor_def)
qed

text \<open>
  C2. A call whose \<open>current_depth\<close> is greater than \<open>max_depth\<close> returns the empty list,
  whatever its argument is. Consequently a dictionary value at a depth greater than
  \<open>max_depth\<close> contributes nothing, wherever in the input it is: when the value at a position
  of the analysed mapping is a dictionary, and the depth of that position, counted from
  the \<open>current_depth\<close> of the call, is greater than \<open>max_depth\<close>, the result is the one
  obtained for the input without that entry.
\<close>

theorem over_depth_contributes_nothing:
  "(max_depth < depth \<longrightarrow> analyze_nested_dict data prefix' max_depth depth = Inr []) \<and>
   (subtree_at items path = Some (Dict sub) \<and> max_depth < current_depth + int (length path) \<longrightarrow>
      analyze_nested_dict (Dict items) prefix max_depth current_depth =
        analyze_nested_dict (Dict (remove_at items path)) prefix max_depth current_depth)"
proof -
  have "expected (remove_at items path) prefix max_depth current_depth =
      expected items prefix max_depth current_depth"
    if "subtree_at items path = Some (Dict sub)"
      and "max_depth < current_depth + int (length path)"
    using that by (rule expected_remove_at)
  then show ?thesis
    by (simp add: analyze_nested_dict_expected del: analyze_nested_dict.simps) simp
qed

theorem over_depth_contributes_nothing_witness:
  "(3::int) < 4 \<and> analyze_nested_dict (Dict example_deep) ''ckpt'' 3 4 = Inr [] \<and>
   subtree_at example_deep [1, 1, 1, 1] =
     Some (Dict [(''x4'', Leaf (Other example_int)),
       (''l5'', Dict [(''x5'', Leaf (Tensor example_tensor))])]) \<and>
   (3::int) < 0 + int (length [1, 1, 1, 1 :: nat]) \<and>
   remove_at example_deep [1, 1, 1, 1] =
     [(''x0'', Leaf (Other example_int)),
      (''l1'', Dict [(''x1'', Leaf (Other example_int)),
        (''l2'', Dict [(''x2'', Leaf (Tensor example_tensor)),
          (''l3'', Dict [(''x3'', Leaf (Other example_function))])])])] \<and>
   analyze_nested_dict (Dict example_deep) '''' 3 0 =
     analyze_nested_dict (Dict (remove_at example_deep [1, 1, 1, 1])) '''' 3 0 \<and>
   analyze_nested_dict (Dict example_deep) '''' 3 0 =
     Inr [describe ''x0'' (Other example_int), describe ''l1.x1'' (Other example_int),
       describe ''l1.l2.x2'' (Tensor example_tensor),
       describe ''l1.l2.l3.x3'' (Other example_function)]"
proof -
  have at: "subtree_at example_deep [1, 1, 1, 1] =
     Some (Dict [(''x4'', Leaf (Other example_int)),
       (''l5'', Dict [(''x5'', Leaf (Tensor example_tensor))])])"
    by (simp add: example_deep_def)
  have removed: "remove_at example_deep [1, 1, 1, 1] =
     [(''x0'', Leaf (Other example_int)),
      (''l1'', Dict [(''x1'', Leaf (Other example_int)),
        (''l2'', Dict [(''x2'', Leaf (Tensor example_tensor)),
          (''l3'', Dict [(''x3'', Leaf (Other example_function))])])])]"
    by (simp add: example_deep_def)
  have run: "analyze_nested_dict (Dict example_deep) '''' 3 0 =
     Inr [describe ''x0'' (Other example_int), describe ''l1.x1'' (Other example_int),
       describe ''l1.l2.x2'' (Tensor example_tensor),
       describe ''l1.l2.l3.x3'' (Other example_function)]"
    by (simp add: example_deep_def full_key_def tensor_descriptor_def other_descriptor_def)
  have deep: "(3::int) < 0 + int (length [1, 1, 1, 1 :: nat])" by simp
  have guard: "analyze_nested_dict (Dict example_deep) ''ckpt'' 3 4 = Inr []" by simp
  show ?thesis
    using over_depth_contributes_nothing [of 3 4 "Dict example_deep" "''ckpt''" example_deep
        "[1, 1, 1, 1]" "[(''x4'', Leaf (Other example_int)),
          (''l5'', Dict [(''x5'', Leaf (Tensor example_tensor))])]" 0 "''''"]
      at deep
    by (simp only: removed run guard) simp
qed

text \<open>
  C3. With \<open>max_depth = 3\<close> and \<open>current_depth = 0\<close> the result holds the descriptors of
  exactly the leaves at nesting depth at most 3, the root mapping being at depth 0 (such a
  leaf is reached through at most 4 keys); every deeper leaf is absent. In the example,
  a mapping with five mappings nested below it, the leaves at depths 4 and 5 are dropped.
\<close>

theorem depth_three_keeps_leaves_up_to_depth_three:
  "analyze_nested_dict (Dict items) prefix 3 0 =
     Inr (map (\<lambda>p. describe (join_path prefix (fst p)) (snd p))
       (filter (\<lambda>p. nesting_depth p \<le> 3) (leaf_paths items)))"
  by (simp only: analyze_nested_dict_expected expected_def reachable_leaves_def
      within_def [abs_def] add_0)

theorem depth_three_keeps_leaves_up_to_depth_three_witness:
  "map nesting_depth (leaf_paths example_deep) = [0, 1, 2, 3, 4, 5] \<and>
   (\<exists>ds. analyze_nested_dict (Dict example_deep) '''' 3 0 = Inr ds \<and>
      map key ds = [''x0'', ''l1.x1'', ''l1.l2.x2'', ''l1.l2.l3.x3''])"
  using depth_three_keeps_leaves_up_to_depth_three [of example_deep "''''"]
  by (simp add: example_deep_def nesting_depth_def join_path_def full_key_def)

text \<open>
  C4. A leaf that is neither a dictionary nor a tensor, reached within the depth bound,
  always gets one descriptor, at its own position in the result (the result has as many
  descriptors as there are reachable leaves). The value preview of that descriptor is the
  marker \<open>''callable''\<close> when the value is callable, and otherwise the first 100
  characters of its string representation.
\<close>

theorem other_leaf_descriptor:
  assumes "i < length (reachable_leaves items max_depth current_depth)"
    and "reachable_leaves items max_depth current_depth ! i = (ks, Other v)"
  shows "\<exists>ds. analyze_nested_dict (Dict items) prefix max_depth current_depth = Inr ds \<and>
    length ds = length (reachable_leaves items max_depth current_depth) \<and>
    key (ds ! i) = join_path prefix ks \<and> type (ds ! i) = type_name v \<and>
    size_bytes (ds ! i) = getsizeof v \<and>
    value_preview (ds ! i) = Some (if callable v then ''callable'' else take 100 (str_of v))"
  using assms by (simp add: analyze_nested_dict_expected expected_def del: analyze_nested_dict.simps)

theorem other_leaf_descriptor_witness:
  "reachable_leaves example_others 3 0 ! 0 = ([''fn''], Other example_function) \<and>
   reachable_leaves example_others 3 0 ! 1 = ([''note''], Other example_text) \<and>
   (\<exists>ds. analyze_nested_dict (Dict example_others) ''args'' 3 0 = Inr ds \<and> length ds = 2 \<and>
      key (ds ! 0) = ''args.fn'' \<and> value_preview (ds ! 0) = Some ''callable'' \<and>
      key (ds ! 1) = ''args.note'' \<and> value_preview (ds ! 1) = Some (replicate 100 CHR ''x''))"
proof -
  have leaves: "reachable_leaves example_others 3 0 =
      [([''fn''], Other example_function), ([''note''], Other example_text)]"
    by (simp add: reachable_leaves_def within_def nesting_depth_def example_others_def)
  have fst_leaf: "reachable_leaves example_others 3 0 ! 0 = ([''fn''], Other example_function)"
    and snd_leaf: "reachable_leaves example_others 3 0 ! 1 = ([''note''], Other example_text)"
    and len0: "0 < length (reachable_leaves example_others 3 0)"
    and len1: "1 < length (reachable_leaves example_others 3 0)"
    by (simp_all add: leaves)
  have run: "analyze_nested_dict (Dict example_others) ''args'' 3 0 =
      Inr (expected example_others ''args'' 3 0)"
    by (rule analyze_nested_dict_expected)
  have out: "expected example_others ''args'' 3 0 =
      [describe ''args.fn'' (Other example_function), describe ''args.note'' (Other example_text)]"
    by (simp add: expected_def leaves join_path_def full_key_def del: describe.simps)
  show ?thesis
    using other_leaf_descriptor [OF len0 fst_leaf, of "''args''"]
      other_leaf_descriptor [OF len1 snd_leaf, of "''args''"] fst_leaf snd_leaf
    by (simp add: run out example_function_def example_text_def
        del: analyze_nested_dict.simps)
qed

text \<open>
  C5. The result is exactly the list of the descriptors of the leaves reachable within the
  depth bound, one per leaf, in the depth-first order that follows each mapping's key
  order; \<open>leaf_paths\<close> lists leaves only, so no descriptor stands for a dictionary. When
  the keys of every dictionary are pairwise different, the reachable leaves are pairwise
  different positions of the input: no leaf is described twice.
\<close>

theorem one_descriptor_per_reachable_leaf:
  "analyze_nested_dict (Dict items) prefix max_depth current_depth =
     Inr (map (\<lambda>p. describe (join_path prefix (fst p)) (snd p))
       (reachable_leaves items max_depth current_depth)) \<and>
   (keys_distinct items \<longrightarrow>
      distinct (map fst (reachable_leaves items max_depth current_depth)))"
proof -
  have "distinct (map fst (reachable_leaves items max_depth current_depth))"
    if "keys_distinct items"
    using leaf_paths_distinct [OF that]
    by (simp add: reachable_leaves_def distinct_map_filter)
  then show ?thesis
    by (simp add: analyze_nested_dict_expected expected_def del: analyze_nested_dict.simps)
qed

theorem one_descriptor_per_reachable_leaf_witness:
  "keys_distinct example_checkpoint \<and>
   reachable_leaves example_checkpoint 3 0 =
     [([''a'', ''b''], Tensor example_tensor), ([''c''], Other example_int)] \<and>
   analyze_nested_dict (Dict example_checkpoint) '''' 3 0 =
     Inr [describe ''a.b'' (Tensor example_tensor), describe ''c'' (Other example_int)] \<and>
   distinct (map fst (reachable_leaves example_checkpoint 3 0))"
proof -
  have keys: "keys_distinct example_checkpoint"
    by (simp add: example_checkpoint_def)
  have leaves: "reachable_leaves example_checkpoint 3 0 =
      [([''a'', ''b''], Tensor example_tensor), ([''c''], Other example_int)]"
    by (simp add: reachable_leaves_def within_def nesting_depth_def example_checkpoint_def)
  show ?thesis
    using one_descriptor_per_reachable_leaf [of example_checkpoint "''''" 3 0] keys
    by (simp add: leaves join_path_def full_key_def del: describe.simps)
qed

text \<open>
  C6. With depth limit \<open>d\<close> and \<open>current_depth = 0\<close>, the path of every descriptor is the
  prefix joined with the keys of a leaf of the input, and those keys, the segments that the
  nesting of dictionaries contributes, are at least one and at most \<open>d + 1\<close>; a key that
  itself contains dots is one such segment. When none of those keys contains a dot, the
  count can be read off the path: it has at most \<open>d + 1\<close> dotted segments more than a
  non-empty prefix, and at most \<open>d + 1\<close> dotted segments when the prefix is empty.
\<close>

theorem path_segments_bounded:
  assumes "analyze_nested_dict (Dict items) prefix d 0 = Inr ds"
    and "dsc \<in> set ds"
  shows "\<exists>ks l. (ks, l) \<in> set (leaf_paths items) \<and> key dsc = join_path prefix ks \<and>
    1 \<le> length ks \<and> int (length ks) \<le> d + 1 \<and>
    ((\<forall>k\<in>set ks. dots k = 0) \<longrightarrow>
       dots (key dsc) + (if prefix = [] then 1 else 0) \<le> dots prefix + length ks)"
proof -
  have "ds = expected items prefix d 0"
    using assms(1) by (simp only: analyze_nested_dict_expected sum.inject)
  then obtain p where p: "p \<in> set (leaf_paths items)" "within d 0 p"
    and dsc: "dsc = describe (join_path prefix (fst p)) (snd p)"
    using assms(2) by (auto simp: expected_def reachable_leaves_def)
  have nonempty: "fst p \<noteq> []" using p(1) by (rule leaf_paths_nonempty)
  then have one: "1 \<le> length (fst p)" by (cases "fst p") simp_all
  have bound: "int (length (fst p)) \<le> d + 1"
    using p(2) unfolding within_def nesting_depth_def by linarith
  have path: "key dsc = join_path prefix (fst p)"
    unfolding dsc by (cases "snd p") simp_all
  have "dots (key dsc) + (if prefix = [] then 1 else 0) \<le> dots prefix + length (fst p)"
    if "\<forall>k\<in>set (fst p). dots k = 0"
    unfolding path using that nonempty by (rule dots_join_path_bound)
  moreover have "(fst p, snd p) \<in> set (leaf_paths items)" using p(1) by simp
  ultimately show ?thesis using one bound path by blast
qed

theorem path_segments_bounded_witness:
  "analyze_nested_dict (Dict example_deep) ''ckpt'' 1 0 =
     Inr [describe ''ckpt.x0'' (Other example_int), describe ''ckpt.l1.x1'' (Other example_int)] \<and>
   (\<exists>ks l. (ks, l) \<in> set (leaf_paths example_deep) \<and> ''ckpt.l1.x1'' = join_path ''ckpt'' ks \<and>
      1 \<le> length ks \<and> int (length ks) \<le> 1 + 1 \<and> (\<forall>k\<in>set ks. dots k = 0) \<and>
      dots ''ckpt.l1.x1'' \<le> dots ''ckpt'' + length ks)"
proof -
  have run: "analyze_nested_dict (Dict example_deep) ''ckpt'' 1 0 =
      Inr [describe ''ckpt.x0'' (Other example_int), describe ''ckpt.l1.x1'' (Other example_int)]"
    by (simp add: example_deep_def full_key_def other_descriptor_def)
  have mem: "describe ''ckpt.l1.x1'' (Other example_int) \<in>
      set [describe ''ckpt.x0'' (Other example_int), describe ''ckpt.l1.x1'' (Other example_int)]"
    by simp
  from path_segments_bounded [OF run mem] obtain ks l where
    leaf: "(ks, l) \<in> set (leaf_paths example_deep)"
    and path: "key (describe ''ckpt.l1.x1'' (Other example_int)) = join_path ''ckpt'' ks"
    and len: "1 \<le> length ks" "int (length ks) \<le> 1 + 1"
    and count: "(\<forall>k\<in>set ks. dots k = 0) \<longrightarrow>
      dots (key (describe ''ckpt.l1.x1'' (Other example_int))) + (if ''ckpt'' = [] then 1 else 0)
        \<le> dots ''ckpt'' + length ks"
    by blast
  have free: "\<forall>k\<in>set ks. dots k = 0"
    using leaf by (auto simp: example_deep_def dots_def)
  have "''ckpt.l1.x1'' = join_path ''ckpt'' ks" using path by simp
  moreover have "dots ''ckpt.l1.x1'' \<le> dots ''ckpt'' + length ks"
    using count free by simp
  ultimately show ?thesis using run leaf len free by blast
qed

text \<open>
  C7. For every entry that the loop processes, whatever the entries before it produced,
  the full key is \<open>prefix @ ''.'' @ k\<close> when the prefix is not empty and \<open>k\<close> alone when
  it is empty: it is the key of the descriptor emitted for a leaf, and the prefix handed to
  the recursive call for a dictionary.
\<close>

theorem full_key_of_entry:
  "(\<exists>dsc. key dsc = (if prefix = [] then k else prefix @ ''.'' @ k) \<and>
      analyze_items ((k, Leaf l) # rest) prefix max_depth current_depth results =
        analyze_items rest prefix max_depth current_depth (results @ [dsc])) \<and>
   analyze_items ((k, Dict sub) # rest) prefix max_depth current_depth results =
     (case analyze_nested_dict (Dict sub) (if prefix = [] then k else prefix @ ''.'' @ k)
         max_depth (current_depth + 1) of
        Inl e \<Rightarrow> Inl e
      | Inr nested \<Rightarrow> analyze_items rest prefix max_depth current_depth (results @ nested))"
proof -
  have fk: "full_key prefix k = (if prefix = [] then k else prefix @ ''.'' @ k)"
    by (simp add: full_key_def)
  have "\<exists>dsc. key dsc = full_key prefix k \<and>
      analyze_items ((k, Leaf l) # rest) prefix max_depth current_depth results =
        analyze_items rest prefix max_depth current_depth (results @ [dsc])"
  proof (cases l)
    case (Tensor t)
    have "key (describe (full_key prefix k) (Tensor t)) = full_key prefix k" by simp
    then show ?thesis
      unfolding Tensor
      by (intro exI [of _ "describe (full_key prefix k) (Tensor t)"])
        (simp add: tensor_descriptor_describe del: get_tensor_info.simps describe.simps)
  next
    case (Other v)
    show ?thesis
      unfolding Other
      by (intro exI [of _ "other_descriptor (full_key prefix k) v"])
        (simp add: other_descriptor_def)
  qed
  moreover have "analyze_items ((k, Dict sub) # rest) prefix max_depth current_depth results =
     (case analyze_nested_dict (Dict sub) (full_key prefix k) max_depth (current_depth + 1) of
        Inl e \<Rightarrow> Inl e
      | Inr nested \<Rightarrow> analyze_items rest prefix max_depth current_depth (results @ nested))"
    by (simp del: analyze_nested_dict.simps)
  ultimately show ?thesis unfolding fk by blast
qed

theorem full_key_of_entry_witness:
  "(\<exists>dsc. key dsc = ''c'' \<and>
      analyze_items ((''c'', Leaf (Other example_int)) # []) [] 3 0 [] =
        analyze_items [] [] 3 0 ([] @ [dsc])) \<and>
   (\<exists>dsc. key dsc = ''model.c'' \<and>
      analyze_items ((''c'', Leaf (Other example_int)) # []) ''model'' 3 0 [] =
        analyze_items [] ''model'' 3 0 ([] @ [dsc])) \<and>
   analyze_nested_dict (Dict example_checkpoint) ''model'' 3 0 =
     Inr [describe ''model.a.b'' (Tensor example_tensor), describe ''model.c'' (Other example_int)]"
proof -
  have run: "analyze_nested_dict (Dict example_checkpoint) ''model'' 3 0 =
     Inr [describe ''model.a.b'' (Tensor example_tensor), describe ''model.c'' (Other example_int)]"
    by (simp add: example_checkpoint_def full_key_def tensor_descriptor_def other_descriptor_def)
  show ?thesis
    using full_key_of_entry [of "[]" "''c''" "Other example_int" "[]" 3 0 "[]"]
      full_key_of_entry [of "''model''" "''c''" "Other example_int" "[]" 3 0 "[]"] run
    by simp
qed

text \<open>
  C8. In the model with a store of list objects, a call returns a reference to a list
  created by that call, whose content is the result of the functional model and so depends
  on the four arguments only, not on the world in which the call runs. A second call on the
  same arguments, run in the world that the first one left, returns another new list with
  the same descriptors in the same order. Every list object that exists before a call,
  the result of the first call included, is the same after it, and nothing is written to
  the standard output.
\<close>

theorem analyze_nested_dict_repeatable:
  "\<exists>r1 w1 r2 w2.
     analyze_nested_dict_heap data prefix max_depth current_depth w = Inr (r1, w1) \<and>
     analyze_nested_dict_heap data prefix max_depth current_depth w1 = Inr (r2, w2) \<and>
     analyze_nested_dict data prefix max_depth current_depth = Inr (objects w1 ! r1) \<and>
     objects w2 ! r2 = objects w1 ! r1 \<and>
     r1 = length (objects w) \<and> r2 = length (objects w1) \<and> r1 < r2 \<and>
     take (length (objects w)) (objects w1) = objects w \<and>
     take (length (objects w1)) (objects w2) = objects w1 \<and>
     stdout w1 = stdout w \<and> stdout w2 = stdout w"
proof -
  obtain w1 where first:
    "analyze_nested_dict_heap data prefix max_depth current_depth w = Inr (length (objects w), w1)"
    "length (objects w) < length (objects w1)"
    "take (length (objects w)) (objects w1) = objects w"
    "analyze_nested_dict data prefix max_depth current_depth = Inr (objects w1 ! length (objects w))"
    "stdout w1 = stdout w"
    using analyze_nested_dict_heap_run [of data prefix max_depth current_depth w] by blast
  obtain w2 where second:
    "analyze_nested_dict_heap data prefix max_depth current_depth w1 = Inr (length (objects w1), w2)"
    "take (length (objects w1)) (objects w2) = objects w1"
    "analyze_nested_dict data prefix max_depth current_depth = Inr (objects w2 ! length (objects w1))"
    "stdout w2 = stdout w1"
    using analyze_nested_dict_heap_run [of data prefix max_depth current_depth w1] by blast
  have "objects w2 ! length (objects w1) = objects w1 ! length (objects w)"
    using first(4) second(3) by simp
  then show ?thesis using first second by auto
qed

theorem analyze_nested_dict_repeatable_witness:
  "\<exists>w1 w2.
     analyze_nested_dict_heap (Dict example_checkpoint) ''m'' 3 0 example_world = Inr (2, w1) \<and>
     analyze_nested_dict_heap (Dict example_checkpoint) ''m'' 3 0 w1 = Inr (length (objects w1), w2) \<and>
     objects w1 ! 2 =
       [describe ''m.a.b'' (Tensor example_tensor), describe ''m.c'' (Other example_int)] \<and>
     objects w2 ! length (objects w1) = objects w1 ! 2 \<and>
     take 2 (objects w1) = [ [describe ''old'' (Other example_int)], []] \<and>
     take (length (objects w1)) (objects w2) = objects w1 \<and>
     stdout w2 = [''Loading checkpoint...'']"
proof -
  have pure: "analyze_nested_dict (Dict example_checkpoint) ''m'' 3 0 =
      Inr [describe ''m.a.b'' (Tensor example_tensor), describe ''m.c'' (Other example_int)]"
    by (simp add: example_checkpoint_def full_key_def tensor_descriptor_def other_descriptor_def)
  have world: "length (objects example_world) = 2"
    "objects example_world = [ [describe ''old'' (Other example_int)], []]"
    "stdout example_world = [''Loading checkpoint...'']"
    by (simp_all add: example_world_def)
  from analyze_nested_dict_repeatable [of "Dict example_checkpoint" "''m''" 3 0 example_world]
  obtain r1 w1 r2 w2 where
    "analyze_nested_dict_heap (Dict example_checkpoint) ''m'' 3 0 example_world = Inr (r1, w1)"
    "analyze_nested_dict_heap (Dict example_checkpoint) ''m'' 3 0 w1 = Inr (r2, w2)"
    "analyze_nested_dict (Dict example_checkpoint) ''m'' 3 0 = Inr (objects w1 ! r1)"
    "objects w2 ! r2 = objects w1 ! r1"
    "r1 = length (objects example_world)" "r2 = length (objects w1)"
    "take (length (objects example_world)) (objects w1) = objects example_world"
    "take (length (objects w1)) (objects w2) = objects w1"
    "stdout w2 = stdout example_world"
    by blast
  note calls = this [unfolded world pure]
  show ?thesis
    by (rule exI [of _ w1], rule exI [of _ w2], insert calls)
      (simp add: numeral_2_eq_2 del: analyze_nested_dict_heap.simps describe.simps)
qed




text \<open>
  C10. When the argument itself is not a dictionary, the result is empty: a tensor or any
  other object passed directly gets no descriptor, while the same value as an entry of a
  dictionary, within the depth bound, gets one.
\<close>

theorem non_mapping_root_yields_nothing:
  "analyze_nested_dict (Leaf l) prefix max_depth current_depth = Inr [] \<and>
   (current_depth \<le> max_depth \<longrightarrow>
      analyze_nested_dict (Dict [(k, Leaf l)]) prefix max_depth current_depth =
        Inr [describe (full_key prefix k) l])"
  by (cases l)
    (simp_all add: tensor_descriptor_describe other_descriptor_describe
      del: get_tensor_info.simps describe.simps)

theorem non_mapping_root_yields_nothing_witness:
  "analyze_nested_dict (Leaf (Tensor example_tensor)) '''' 3 0 = Inr [] \<and> (0::int) \<le> 3 \<and>
   analyze_nested_dict (Dict [(''w'', Leaf (Tensor example_tensor))]) '''' 3 0 =
     Inr [describe ''w'' (Tensor example_tensor)]"
  using non_mapping_root_yields_nothing [of "Tensor example_tensor" "''''" 3 0 "''w''"]
  by (simp add: full_key_def)

end
